theory Spec2Isabelle
  imports Main "HOL-Library.Sublist" "HOL-Library.Word"
begin

section \<open>Go strings and the library functions the parser calls\<close>

text \<open>
  A Go string is a sequence of bytes, here a \<^typ>\<open>string\<close>. The functions of the
  packages \<^verbatim>\<open>unicode/utf8\<close>, \<^verbatim>\<open>unicode\<close>, \<^verbatim>\<open>strings\<close> and \<^verbatim>\<open>bufio\<close> that
  \<^verbatim>\<open>parseIOPlatformUUID\<close> calls are written out below as the Go library defines them.
\<close>

type_synonym rune = nat

definition byte :: "char \<Rightarrow> nat" where
  "byte c = of_char c"

definition RuneError :: rune where
  "RuneError = 0xFFFD"

text \<open>
  \<^verbatim>\<open>utf8.DecodeRuneInString\<close>: the first code point of the string and its width in
  bytes. An invalid or truncated encoding gives \<^verbatim>\<open>(RuneError, 1)\<close>, the empty string
  \<^verbatim>\<open>(RuneError, 0)\<close>. The size and the accepted range of the second byte follow the
  table \<^verbatim>\<open>first\<close> of the package.
\<close>

definition runeSize :: "nat \<Rightarrow> nat" where
  "runeSize b0 = (if b0 < 0xE0 then 2 else if b0 < 0xF0 then 3 else 4)"

definition acceptLo :: "nat \<Rightarrow> nat" where
  "acceptLo b0 = (if b0 = 0xE0 then 0xA0 else if b0 = 0xF0 then 0x90 else 0x80)"

definition acceptHi :: "nat \<Rightarrow> nat" where
  "acceptHi b0 = (if b0 = 0xED then 0x9F else if b0 = 0xF4 then 0x8F else 0xBF)"


fun DecodeRuneInString :: "string \<Rightarrow> rune \<times> nat" where
  "DecodeRuneInString [] = (RuneError, 0)"
| "DecodeRuneInString (c0 # s) =
     (let b0 = byte c0 in
      if b0 < 0x80 then (b0, 1)
      else if b0 < 0xC2 \<or> 0xF4 < b0 then (RuneError, 1)
      else if length (c0 # s) < runeSize b0 then (RuneError, 1)
      else
        let b1 = byte (s ! 0) in
        if b1 < acceptLo b0 \<or> acceptHi b0 < b1 then (RuneError, 1)
        else if runeSize b0 \<le> 2 then ((b0 mod 32) * 64 + b1 mod 64, 2)
        else
          let b2 = byte (s ! 1) in
          if b2 < 0x80 \<or> 0xBF < b2 then (RuneError, 1)
          else if runeSize b0 \<le> 3 then ((b0 mod 16) * 4096 + (b1 mod 64) * 64 + b2 mod 64, 3)
          else
            let b3 = byte (s ! 2) in
            if b3 < 0x80 \<or> 0xBF < b3 then (RuneError, 1)
            else ((b0 mod 8) * 262144 + (b1 mod 64) * 4096 + (b2 mod 64) * 64 + b3 mod 64, 4))"

text \<open>\<^verbatim>\<open>unicode.IsSpace\<close>: the Latin-1 spaces, then the table \<^verbatim>\<open>White_Space\<close>.\<close>

definition IsSpace :: "rune \<Rightarrow> bool" where
  "IsSpace r =
     (if r \<le> 0xFF then r \<in> {0x09, 0x0A, 0x0B, 0x0C, 0x0D, 0x20, 0x85, 0xA0}
      else r = 0x1680 \<or> (0x2000 \<le> r \<and> r \<le> 0x200A) \<or> r = 0x2028 \<or> r = 0x2029
        \<or> r = 0x202F \<or> r = 0x205F \<or> r = 0x3000)"

text \<open>
  \<^verbatim>\<open>for i, r := range s\<close>: the code points of a string in order, each with the bytes
  that encode it (an invalid byte stands alone, as \<^verbatim>\<open>RuneError\<close>).
\<close>

function runes :: "string \<Rightarrow> (rune \<times> string) list" where
  "runes [] = []"
| "runes (c # s) =
     (let w = snd (DecodeRuneInString (c # s)) in
      (fst (DecodeRuneInString (c # s)), take w (c # s)) # runes (drop w (c # s)))"
  by pat_completeness auto

lemma DecodeRuneInString_width:
  "1 \<le> snd (DecodeRuneInString (c # s)) \<and> snd (DecodeRuneInString (c # s)) \<le> length (c # s)"
  by (auto simp: Let_def runeSize_def Suc_le_eq)

termination runes
proof (relation "measure length")
  show "wf (measure length)" by simp
next
  fix c :: char and s :: string and w :: nat
  assume w: "w = snd (DecodeRuneInString (c # s))"
  have "1 \<le> w" using DecodeRuneInString_width [of c s] w by simp
  then show "(drop w (c # s), c # s) \<in> measure length" by simp
qed

text \<open>
  \<^verbatim>\<open>strings.FieldsFunc\<close>: the loop keeps \<^verbatim>\<open>start\<close>, the index where the running field
  began, or a negative number between fields. The model keeps the bytes of the running
  field, \<^verbatim>\<open>s[start:end]\<close>, in its place.
\<close>

fun fieldsLoop :: "(rune \<Rightarrow> bool) \<Rightarrow> string option \<Rightarrow> (rune \<times> string) list \<Rightarrow> string list" where
  "fieldsLoop f start [] = (case start of None \<Rightarrow> [] | Some cur \<Rightarrow> [cur])"
| "fieldsLoop f start ((r, bs) # rs) =
     (if f r then
        (case start of
           Some cur \<Rightarrow> cur # fieldsLoop f None rs
         | None \<Rightarrow> fieldsLoop f None rs)
      else
        (case start of
           Some cur \<Rightarrow> fieldsLoop f (Some (cur @ bs)) rs
         | None \<Rightarrow> fieldsLoop f (Some bs) rs))"

definition FieldsFunc :: "string \<Rightarrow> (rune \<Rightarrow> bool) \<Rightarrow> string list" where
  "FieldsFunc s f = fieldsLoop f None (runes s)"

text \<open>
  \<^verbatim>\<open>strings.Fields\<close> splits around runs of white space as \<^verbatim>\<open>unicode.IsSpace\<close> defines
  it; its loop over the bytes of an all-ASCII string computes the same fields.
\<close>

definition Fields :: "string \<Rightarrow> string list" where
  "Fields s = FieldsFunc s IsSpace"

text \<open>\<^verbatim>\<open>strings.Contains\<close>: \<^verbatim>\<open>substr\<close> occurs at some index of \<^verbatim>\<open>s\<close>.\<close>

fun Contains :: "string \<Rightarrow> string \<Rightarrow> bool" where
  "Contains [] substr = (substr = [])"
| "Contains (c # s) substr = (prefix substr (c # s) \<or> Contains s substr)"

text \<open>
  \<^verbatim>\<open>strings.ReplaceAll\<close>: every non-overlapping instance of \<^verbatim>\<open>old\<close>, from the left,
  becomes \<^verbatim>\<open>new\<close>. An empty \<^verbatim>\<open>old\<close> matches before the first code point and after
  each one.
\<close>

function replaceFrom :: "string \<Rightarrow> string \<Rightarrow> string \<Rightarrow> string" where
  "replaceFrom [] old new = []"
| "replaceFrom (c # s) old new =
     (if old \<noteq> [] \<and> prefix old (c # s) then new @ replaceFrom (drop (length old) (c # s)) old new
      else c # replaceFrom s old new)"
  by pat_completeness auto
termination
  by (relation "measure (\<lambda>(s, old, new). length s)") (auto simp: neq_Nil_conv)

definition ReplaceAll :: "string \<Rightarrow> string \<Rightarrow> string \<Rightarrow> string" where
  "ReplaceAll s old new =
     (if old = new then s
      else if old = [] then new @ concat (map (\<lambda>(r, bs). bs @ new) (runes s))
      else replaceFrom s old new)"

text \<open>
  \<^verbatim>\<open>strings.Trim\<close> with a cutset of ASCII bytes, which the library handles byte by byte:
  the leading and the trailing bytes of the cutset are cut off.
\<close>

definition Trim :: "string \<Rightarrow> string \<Rightarrow> string" where
  "Trim s cutset =
     rev (dropWhile (\<lambda>c. c \<in> set cutset) (rev (dropWhile (\<lambda>c. c \<in> set cutset) s)))"

text \<open>
  \<^verbatim>\<open>bufio.Scanner\<close> with its default split function \<^verbatim>\<open>ScanLines\<close> over an in-memory
  reader: a token is the text up to the next newline, without one trailing carriage
  return; a last line with no newline is a token when it is not empty. A line of
  \<^verbatim>\<open>MaxScanTokenSize\<close> bytes or more does not fit the buffer: \<^verbatim>\<open>Scan\<close> returns false
  there and \<^verbatim>\<open>Err\<close> is \<^verbatim>\<open>ErrTooLong\<close>.
\<close>

definition MaxScanTokenSize :: nat where
  "MaxScanTokenSize = 64 * 1024"

definition newline :: char where
  "newline = CHR 0x0A"

definition dropCR :: "string \<Rightarrow> string" where
  "dropCR s = (if s \<noteq> [] \<and> last s = CHR 0x0D then butlast s else s)"

section \<open>The platform UUID parser (internal/system)\<close>

text \<open>
  Go errors: \<^verbatim>\<open>errors.New\<close> with its message, \<^verbatim>\<open>fmt.Errorf("...: %w", err)\<close> as a
  wrapper around the error it carries, and the errors of the library and the operating
  system that the program passes on.
\<close>

datatype errno = EEXIST | ENOENT | ENOTDIR | ENOTEMPTY | EISDIR | EIO

datatype error =
    New string
  | Wrap string error
  | PathError errno
  | ExitError
  | Canceled
  | ErrTooLong
  | ErrClosed
  | ErrBadPattern
  | NetworkError

definition quote :: char where
  "quote = CHR 0x22"

definition platformUUIDKeyToken :: string where
  "platformUUIDKeyToken = quote # ''IOPlatformUUID'' @ [quote]"

text \<open>
  The body of the scanning loop of \<^verbatim>\<open>parseIOPlatformUUID\<close> on one line: \<open>Some uuid\<close>
  where the loop returns \<^verbatim>\<open>uuid, nil\<close>, \<open>None\<close> where it goes on to the next line.
\<close>

definition matchLine :: "string \<Rightarrow> string option" where
  "matchLine line =
     (if \<not> Contains line platformUUIDKeyToken then None
      else
        let fields = Fields (ReplaceAll line [quote] []) in
        if length fields \<noteq> 3 then None
        else
          let key = fields ! 0; uuid = fields ! 2 in
          if key \<noteq> Trim platformUUIDKeyToken [quote] then None
          else if uuid \<noteq> [] then Some uuid
          else None)"

function parseIOPlatformUUID :: "string \<Rightarrow> error + string" where
  "parseIOPlatformUUID data =
     (if data = [] then Inl (New ''UUID not found in ioreg output'')
      else
        let line = takeWhile (\<lambda>c. c \<noteq> newline) data in
        if MaxScanTokenSize \<le> length line then Inl (Wrap ''error scanning ioreg output'' ErrTooLong)
        else
          (case matchLine (dropCR line) of
             Some uuid \<Rightarrow> Inr uuid
           | None \<Rightarrow> parseIOPlatformUUID (drop (Suc (length line)) data)))"
  by pat_completeness auto
termination
  by (relation "measure length") auto

declare parseIOPlatformUUID.simps [simp del]

text \<open>
  \<^verbatim>\<open>GetHostIOPlatformUUID\<close>: the output of the \<^verbatim>\<open>ioreg\<close> query is the argument, \<open>None\<close>
  when the command failed.
\<close>

definition GetHostIOPlatformUUID :: "string option \<Rightarrow> error + string" where
  "GetHostIOPlatformUUID out =
     (case out of None \<Rightarrow> Inl (Wrap ''ioreg query'' ExitError) | Some data \<Rightarrow> parseIOPlatformUUID data)"

section \<open>Lexical path functions (path/filepath on a Unix system)\<close>

text \<open>
  \<^verbatim>\<open>filepath.Clean\<close> reads the path from the left and writes the cleaned path to
  \<open>out\<close>; \<open>dotdot\<close> is the length of the part of \<open>out\<close> that a \<^verbatim>\<open>..\<close> element
  must not remove (the leading slash, or leading \<^verbatim>\<open>..\<close> elements).
\<close>

definition Separator :: char where
  "Separator = CHR ''/''"

fun backtrack :: "nat \<Rightarrow> string \<Rightarrow> nat \<Rightarrow> nat" where
  "backtrack dotdot out 0 = 0"
| "backtrack dotdot out (Suc w) =
     (if dotdot < Suc w \<and> out ! Suc w \<noteq> Separator then backtrack dotdot out w else Suc w)"

function cleanLoop :: "bool \<Rightarrow> string \<Rightarrow> nat \<Rightarrow> string \<Rightarrow> string" where
  "cleanLoop rooted out dotdot [] = out"
| "cleanLoop rooted out dotdot (c # path) =
     (if c = Separator then cleanLoop rooted out dotdot path
      else if c = CHR ''.'' \<and> (path = [] \<or> hd path = Separator) then cleanLoop rooted out dotdot path
      else if c = CHR ''.'' \<and> hd path = CHR ''.'' \<and> (tl path = [] \<or> hd (tl path) = Separator) then
        (if dotdot < length out then
           cleanLoop rooted (take (backtrack dotdot out (length out - 1)) out) dotdot (tl path)
         else if \<not> rooted then
           (let out' = (if out \<noteq> [] then out @ [Separator] else out) @ ''..''
            in cleanLoop rooted out' (length out') (tl path))
         else cleanLoop rooted out dotdot (tl path))
      else
        (let out' = (if rooted \<and> length out \<noteq> 1 \<or> \<not> rooted \<and> length out \<noteq> 0
                     then out @ [Separator] else out)
         in cleanLoop rooted (out' @ takeWhile (\<lambda>x. x \<noteq> Separator) (c # path)) dotdot
              (dropWhile (\<lambda>x. x \<noteq> Separator) (c # path))))"
  by pat_completeness auto
termination
  by (relation "measure (\<lambda>(rooted, out, dotdot, path). length path)")
     (auto simp: length_dropWhile_le le_imp_less_Suc)

definition Clean :: "string \<Rightarrow> string" where
  "Clean path =
     (if path = [] then ''.''
      else
        let rooted = (hd path = Separator);
            out = (if rooted then cleanLoop True [Separator] 1 (tl path)
                   else cleanLoop False [] 0 path)
        in if out = [] then ''.'' else out)"

text \<open>
  \<^verbatim>\<open>filepath.Base\<close>: the last element of the path, after the trailing slashes are
  cut off; \<^verbatim>\<open>filepath.Dir\<close>: the cleaned path up to the last slash;
  \<^verbatim>\<open>filepath.Join\<close>: the elements from the first non-empty one on, joined with
  slashes and cleaned.
\<close>

definition Base :: "string \<Rightarrow> string" where
  "Base path =
     (if path = [] then ''.''
      else
        let stripped = rev (dropWhile (\<lambda>c. c = Separator) (rev path));
            elem = rev (takeWhile (\<lambda>c. c \<noteq> Separator) (rev stripped))
        in if elem = [] then [Separator] else elem)"

definition Dir :: "string \<Rightarrow> string" where
  "Dir path = Clean (rev (dropWhile (\<lambda>c. c \<noteq> Separator) (rev path)))"

fun joinWith :: "string \<Rightarrow> string list \<Rightarrow> string" where
  "joinWith sep [] = []"
| "joinWith sep [e] = e"
| "joinWith sep (e # es) = e @ sep @ joinWith sep es"

definition Join :: "string list \<Rightarrow> string" where
  "Join elem =
     (case dropWhile (\<lambda>e. e = []) elem of
        [] \<Rightarrow> []
      | es \<Rightarrow> Clean (joinWith [Separator] es))"

section \<open>The environment: file system, external processes, clock and network\<close>

text \<open>
  The program acts on a file system and on external processes. The file system is a
  table from cleaned paths to nodes, with the contents of regular files kept by inode:
  removing a path leaves the inode to the handles that hold it open. The kernel's path
  resolution is \<^verbatim>\<open>Clean\<close> (a tree with no symbolic links); permission bits are not
  kept. \<open>events\<close> records, in order, every connectivity probe, every run of the
  \<^verbatim>\<open>sysdiagnose\<close> executable and every file the program creates.
\<close>

datatype node = Directory | Regular nat

datatype handle = FileHandle nat | DirHandle string

datatype event = Probe | Sysdiagnose "string list" | Created string

record world =
  names :: "(string \<times> node) list"
  inodes :: "(nat \<times> string) list"
  nextInode :: nat
  opened :: "nat list"
  events :: "event list"
  tick :: nat

text \<open>
  What the program cannot decide is read from an oracle, indexed by \<open>tick\<close>, the number
  of questions asked so far: whether a system call or the external process fails at
  this point (\<open>fails\<close>), what the metadata service answers (\<open>imds\<close>), whether the
  context is cancelled when a \<^verbatim>\<open>select\<close> waits (\<open>ctxDone\<close>), the random number of a
  temporary name, the formatted clock, the bytes of the archive that \<^verbatim>\<open>sysdiagnose\<close>
  writes, how many bytes a failing copy has written, \<^verbatim>\<open>os.TempDir()\<close>, the effective
  user id and the output of \<^verbatim>\<open>ioreg\<close> (\<open>None\<close> when the command fails).
\<close>

datatype site =
  AtMkdirAll | AtMkdirTemp | AtChmod | AtRun | AtOpen | AtRemove | AtRemoveAll | AtCreate | AtCopy

datatype http = RequestError | TransportError | BodyError | Status nat

record env =
  fails :: "site \<Rightarrow> nat \<Rightarrow> bool"
  imds :: "nat \<Rightarrow> http"
  ctxDone :: "nat \<Rightarrow> bool"
  randomNumber :: "nat \<Rightarrow> nat"
  timestamp :: "nat \<Rightarrow> string"
  archive :: "nat \<Rightarrow> string"
  copied :: "nat \<Rightarrow> nat"
  tempDir :: string
  euid :: int
  ioreg :: "string option"

definition step :: "world \<Rightarrow> world" where
  "step w = w\<lparr>tick := Suc (tick w)\<rparr>"

definition lookup :: "world \<Rightarrow> string \<Rightarrow> node option" where
  "lookup w p = map_of (names w) p"

definition isDir :: "world \<Rightarrow> string \<Rightarrow> bool" where
  "isDir w p = (p = [Separator] \<or> p = ''.'' \<or> lookup w p = Some Directory)"

definition link :: "string \<Rightarrow> node \<Rightarrow> world \<Rightarrow> world" where
  "link p n w = w\<lparr>names := (p, n) # filter (\<lambda>e. fst e \<noteq> p) (names w)\<rparr>"

definition unlink :: "string \<Rightarrow> world \<Rightarrow> world" where
  "unlink p w = w\<lparr>names := filter (\<lambda>e. fst e \<noteq> p) (names w)\<rparr>"

definition under :: "string \<Rightarrow> string \<Rightarrow> bool" where
  "under dir p =
     (if dir = [Separator] then p \<noteq> dir \<and> prefix dir p else prefix (dir @ [Separator]) p)"

definition ancestors :: "string \<Rightarrow> string list" where
  "ancestors p = map (\<lambda>i. take i p) (filter (\<lambda>i. p ! i = Separator) [1..<length p]) @ [p]"

definition isRegular :: "world \<Rightarrow> string \<Rightarrow> bool" where
  "isRegular w p = (case lookup w p of Some (Regular i) \<Rightarrow> True | _ \<Rightarrow> False)"

definition newFile :: "string \<Rightarrow> string \<Rightarrow> world \<Rightarrow> world" where
  "newFile p content w =
     link p (Regular (nextInode w))
       (w\<lparr>inodes := (nextInode w, content) # inodes w, nextInode := Suc (nextInode w)\<rparr>)"

definition setContent :: "nat \<Rightarrow> string \<Rightarrow> world \<Rightarrow> world" where
  "setContent i content w = w\<lparr>inodes := (i, content) # filter (\<lambda>e. fst e \<noteq> i) (inodes w)\<rparr>"

text \<open>
  \<^verbatim>\<open>os.MkdirAll\<close>: nothing to do for a directory that exists; otherwise the missing
  directories of the path are made, unless a regular file is in the way.
\<close>

definition MkdirAll :: "env \<Rightarrow> string \<Rightarrow> world \<Rightarrow> error option \<times> world" where
  "MkdirAll env path w =
     (let p = Clean path in
      if path = [] then (Some (PathError ENOENT), w)
      else if isDir w p then (None, w)
      else if fails env AtMkdirAll (tick w) then (Some (PathError EIO), step w)
      else if list_ex (isRegular w) (ancestors p) then (Some (PathError ENOTDIR), step w)
      else (None, step (fold (\<lambda>q v. if isDir v q then v else link q Directory v) (ancestors p) w)))"

text \<open>
  \<^verbatim>\<open>os.MkdirTemp\<close>: the last \<^verbatim>\<open>*\<close> of the pattern becomes a random decimal number. The
  library tries again on a name that exists, up to 10000 times; the model asks the
  oracle once and fails on a name that exists.
\<close>

function itoa :: "nat \<Rightarrow> string" where
  "itoa n = (if n < 10 then [''0123456789'' ! n] else itoa (n div 10) @ [''0123456789'' ! (n mod 10)])"
  by pat_completeness auto
termination
  by (relation "measure id") auto

declare itoa.simps [simp del]

definition prefixAndSuffix :: "string \<Rightarrow> string \<times> string" where
  "prefixAndSuffix pattern =
     (if CHR ''*'' \<in> set pattern
      then (rev (tl (dropWhile (\<lambda>c. c \<noteq> CHR ''*'') (rev pattern))),
            rev (takeWhile (\<lambda>c. c \<noteq> CHR ''*'') (rev pattern)))
      else (pattern, []))"

definition joinPath :: "string \<Rightarrow> string \<Rightarrow> string" where
  "joinPath dir name =
     (if dir \<noteq> [] \<and> last dir = Separator then dir @ name else dir @ [Separator] @ name)"

definition MkdirTemp :: "env \<Rightarrow> string \<Rightarrow> string \<Rightarrow> world \<Rightarrow> (error + string) \<times> world" where
  "MkdirTemp env dir pattern w =
     (let d = (if dir = [] then tempDir env else dir);
          name = joinPath d (fst (prefixAndSuffix pattern)) @ itoa (randomNumber env (tick w))
                   @ snd (prefixAndSuffix pattern);
          p = Clean name
      in if Separator \<in> set pattern then (Inl (New ''pattern contains path separator''), w)
         else if fails env AtMkdirTemp (tick w) then (Inl (PathError EIO), step w)
         else if lookup w p \<noteq> None \<or> isDir w p then (Inl (PathError EEXIST), step w)
         else if \<not> isDir w (Dir p) then (Inl (PathError ENOENT), step w)
         else (Inr name, step (link p Directory w)))"

definition Chmod :: "env \<Rightarrow> string \<Rightarrow> world \<Rightarrow> error option \<times> world" where
  "Chmod env path w =
     (if fails env AtChmod (tick w) then (Some (PathError EIO), step w)
      else if lookup w (Clean path) = None \<and> \<not> isDir w (Clean path) then (Some (PathError ENOENT), step w)
      else (None, step w))"

text \<open>
  \<^verbatim>\<open>os.OpenFile\<close> for the two ways the program opens a file: read-only, and
  \<^verbatim>\<open>O_WRONLY|O_CREATE|O_EXCL\<close>, which makes a new empty file and fails on a path that
  exists.
\<close>

datatype flags = O_RDONLY | O_WRONLY_CREATE_EXCL

definition OpenFile :: "env \<Rightarrow> string \<Rightarrow> flags \<Rightarrow> world \<Rightarrow> (error + handle) \<times> world" where
  "OpenFile env path flag w =
     (let p = Clean path in
      case flag of
        O_RDONLY \<Rightarrow>
          (if fails env AtOpen (tick w) then (Inl (PathError EIO), step w)
           else if isDir w p then (Inr (DirHandle p), step w)
           else
             (case lookup w p of
                Some (Regular i) \<Rightarrow> (Inr (FileHandle i), step (w\<lparr>opened := i # opened w\<rparr>))
              | _ \<Rightarrow> (Inl (PathError ENOENT), step w)))
      | O_WRONLY_CREATE_EXCL \<Rightarrow>
          (if fails env AtCreate (tick w) then (Inl (PathError EIO), step w)
           else if lookup w p \<noteq> None \<or> isDir w p then (Inl (PathError EEXIST), step w)
           else if \<not> isDir w (Dir p) then (Inl (PathError ENOENT), step w)
           else
             (Inr (FileHandle (nextInode w)),
              step ((newFile p [] w)\<lparr>opened := nextInode w # opened w,
                                     events := events w @ [Created p]\<rparr>))))"

definition Close :: "handle \<Rightarrow> world \<Rightarrow> world" where
  "Close h w = (case h of FileHandle i \<Rightarrow> w\<lparr>opened := remove1 i (opened w)\<rparr> | DirHandle p \<Rightarrow> w)"

text \<open>What a reader gets from a handle until it is closed: all the bytes of the inode.\<close>

definition ReadAll :: "handle \<Rightarrow> world \<Rightarrow> string option" where
  "ReadAll h w =
     (case h of
        FileHandle i \<Rightarrow> if i \<in> set (opened w) then map_of (inodes w) i else None
      | DirHandle p \<Rightarrow> None)"

text \<open>
  \<^verbatim>\<open>io.Copy\<close>: all the bytes of the source go to the destination, or, when the copy
  fails, the bytes written until then.
\<close>

definition Copy :: "env \<Rightarrow> handle \<Rightarrow> handle \<Rightarrow> world \<Rightarrow> (error + nat) \<times> world" where
  "Copy env dst src w =
     (case (dst, ReadAll src w) of
        (FileHandle d, Some content) \<Rightarrow>
          if d \<notin> set (opened w) then (Inl ErrClosed, w)
          else if fails env AtCopy (tick w)
          then (Inl (PathError EIO), step (setContent d (take (copied env (tick w)) content) w))
          else (Inr (length content), step (setContent d content w))
      | (FileHandle d, None) \<Rightarrow>
          (case src of DirHandle p \<Rightarrow> (Inl (PathError EISDIR), w) | _ \<Rightarrow> (Inl ErrClosed, w))
      | (DirHandle p, _) \<Rightarrow> (Inl (PathError EISDIR), w))"

text \<open>
  \<^verbatim>\<open>os.Remove\<close> and \<^verbatim>\<open>os.RemoveAll\<close>. A \<^verbatim>\<open>RemoveAll\<close> that fails may have removed a
  part of the tree; the model's failing \<^verbatim>\<open>RemoveAll\<close> has removed nothing.
\<close>

definition Remove :: "env \<Rightarrow> string \<Rightarrow> world \<Rightarrow> error option \<times> world" where
  "Remove env path w =
     (let p = Clean path in
      if fails env AtRemove (tick w) then (Some (PathError EIO), step w)
      else
        (case lookup w p of
           None \<Rightarrow> (Some (PathError ENOENT), step w)
         | Some Directory \<Rightarrow>
             if list_ex (\<lambda>e. under p (fst e)) (names w) then (Some (PathError ENOTEMPTY), step w)
             else (None, step (unlink p w))
         | Some (Regular i) \<Rightarrow> (None, step (unlink p w))))"

definition RemoveAll :: "env \<Rightarrow> string \<Rightarrow> world \<Rightarrow> error option \<times> world" where
  "RemoveAll env path w =
     (let p = Clean path in
      if path = [] then (None, w)
      else if fails env AtRemoveAll (tick w) then (Some (PathError EIO), step w)
      else (None, step (w\<lparr>names := filter (\<lambda>e. fst e \<noteq> p \<and> \<not> under p (fst e)) (names w)\<rparr>)))"

text \<open>
  The \<^verbatim>\<open>sysdiagnose\<close> executable, run by \<^verbatim>\<open>exec.CommandContext(...).Run()\<close> with the
  arguments \<^verbatim>\<open>-f dir -A name -u -b\<close>: when it succeeds it has written its archive as the
  file \<^verbatim>\<open>name\<close> of the directory \<^verbatim>\<open>dir\<close>; a failure (a non-zero exit, or the context
  cancelled, which kills the process) leaves nothing.
\<close>

definition Run :: "env \<Rightarrow> string list \<Rightarrow> world \<Rightarrow> error option \<times> world" where
  "Run env args w =
     (let w1 = step (w\<lparr>events := events w @ [Sysdiagnose args]\<rparr>) in
      if fails env AtRun (tick w) then (Some ExitError, w1)
      else
        (case args of
           [f, dir, a, name, u, b] \<Rightarrow>
             if isDir w (Clean dir) then (None, newFile (Join [dir, name]) (archive env (tick w)) w1)
             else (Some ExitError, w1)
         | _ \<Rightarrow> (Some ExitError, w1)))"

section \<open>The archive collector (internal/sysdiagnose)\<close>

definition sysdiagnoseArgs :: "string \<Rightarrow> error + string list" where
  "sysdiagnoseArgs outputFileFullPath =
     (if outputFileFullPath = [] then Inl (New ''output file path required'')
      else Inr [''-f'', Dir outputFileFullPath, ''-A'', Base outputFileFullPath, ''-u'', ''-b''])"

text \<open>
  \<^verbatim>\<open>Collect\<close> from the line after its \<^verbatim>\<open>defer\<close> to its \<^verbatim>\<open>return\<close>: the part of the
  function that runs with the removal of \<open>workDir\<close> pending.
\<close>

definition collectInWorkDir :: "env \<Rightarrow> string \<Rightarrow> string \<Rightarrow> world \<Rightarrow> (error + handle) \<times> world" where
  "collectInWorkDir env archiveName workDir w =
     (let archiveOutputPath = Join [workDir, archiveName @ ''.tar.gz''] in
      case sysdiagnoseArgs archiveOutputPath of
        Inl e \<Rightarrow> (Inl (Wrap ''error building sysdiagnose args'' e), w)
      | Inr args \<Rightarrow>
          (case Run env args w of
             (Some e, w1) \<Rightarrow> (Inl (Wrap ''error running sysdiagnose'' e), w1)
           | (None, w1) \<Rightarrow>
               (case OpenFile env archiveOutputPath O_RDONLY w1 of
                  (Inl e, w2) \<Rightarrow> (Inl (Wrap ''open result handle'' e), w2)
                | (Inr handle, w2) \<Rightarrow> (Inr handle, snd (Remove env archiveOutputPath w2)))))"

definition Collect :: "env \<Rightarrow> string \<Rightarrow> world \<Rightarrow> (error + handle) \<times> world" where
  "Collect env archiveName w =
     (if archiveName = [] then (Inl (New ''archive name required''), w)
      else if Base archiveName \<noteq> Clean archiveName
      then (Inl (New ''archive name must be a valid path basename without directory parts''), w)
      else
        (case MkdirTemp env [] ''sysdiagnose-helper*'' w of
           (Inl e, w1) \<Rightarrow> (Inl (Wrap ''failed to create directory'' e), w1)
         | (Inr workDir, w1) \<Rightarrow>
             (case Chmod env workDir w1 of
                (Some e, w2) \<Rightarrow> (Inl (Wrap ''unable to chmod sysdiagnose dir'' e), w2)
              | (None, w2) \<Rightarrow>
                  (case collectInWorkDir env archiveName workDir w2 of
                     (res, w3) \<Rightarrow> (res, snd (RemoveAll env workDir w3))))))"

section \<open>The commands (internal/cmd)\<close>

type_synonym Duration = "64 word"

definition Minute :: Duration where
  "Minute = 60 * 1000000000"

definition sysdiagnoseDefaultTimeout :: Duration where
  "sysdiagnoseDefaultTimeout = 15 * Minute"

definition sysdiagnoseMinTimeout :: Duration where
  "sysdiagnoseMinTimeout = 5 * Minute"

record sysdiagnoseArgs =
  outputDir :: string
  timeout :: Duration

text \<open>
  \<^verbatim>\<open>runSysdiagnose\<close>; its two deferred calls of \<^verbatim>\<open>Close\<close> are written out at each
  return they apply to.
\<close>

definition runSysdiagnose :: "env \<Rightarrow> sysdiagnoseArgs \<Rightarrow> world \<Rightarrow> error option \<times> world" where
  "runSysdiagnose env args w =
     (case MkdirAll env (outputDir args) w of
        (Some e, w1) \<Rightarrow> (Some (Wrap ''failed to create output directory'' e), w1)
      | (None, w1) \<Rightarrow>
          (let archiveName = ''sysdiagnose_'' @ timestamp env (tick w1);
               outputPath = Join [outputDir args, archiveName @ ''.tar.gz'']
           in case Collect env archiveName (step w1) of
                (Inl e, w2) \<Rightarrow> (Some (Wrap ''failed to create sysdiagnose'' e), w2)
              | (Inr outputReader, w2) \<Rightarrow>
                  (case OpenFile env outputPath O_WRONLY_CREATE_EXCL w2 of
                     (Inl e, w3) \<Rightarrow>
                       (Some (Wrap (''failed to create output file '' @ outputPath) e),
                        Close outputReader w3)
                   | (Inr output, w3) \<Rightarrow>
                       (case Copy env output outputReader w3 of
                          (Inl e, w4) \<Rightarrow>
                            (Some (Wrap ''failed to write sysdiagnose data'' e),
                             Close outputReader (Close output (snd (Remove env outputPath w4))))
                        | (Inr written, w4) \<Rightarrow>
                            (None, Close outputReader (Close output w4))))))"

definition runCheckIMDS :: "env \<Rightarrow> world \<Rightarrow> error option \<times> world" where
  "runCheckIMDS env w =
     (let w1 = step (w\<lparr>events := events w @ [Probe]\<rparr>) in
      case imds env (tick w) of
        RequestError \<Rightarrow> (Some (Wrap ''failed to create request'' NetworkError), w1)
      | TransportError \<Rightarrow> (Some (Wrap ''failed to connect to IMDS'' NetworkError), w1)
      | BodyError \<Rightarrow> (Some (Wrap ''failed to read IMDS response'' NetworkError), w1)
      | Status statusCode \<Rightarrow>
          if statusCode \<noteq> 200 then (Some (New ''IMDS returned non-200 status code''), w1)
          else (None, w1))"

record networkHealthMonitorArgs =
  interval :: Duration
  startupDelay :: Duration
  outputDir :: string
  sysdiagnoseTimeout :: Duration

definition checkNetworkAndCollect ::
  "env \<Rightarrow> sysdiagnoseArgs \<Rightarrow> world \<Rightarrow> (bool \<times> error option) \<times> world" where
  "checkNetworkAndCollect env sysArgs w =
     (case runCheckIMDS env w of
        (Some err, w1) \<Rightarrow>
          (case MkdirAll env (sysdiagnoseArgs.outputDir sysArgs) w1 of
             (Some e, w2) \<Rightarrow> ((False, Some (Wrap ''sysdiagnose output directory creation'' e)), w2)
           | (None, w2) \<Rightarrow>
               (case runSysdiagnose env sysArgs w2 of
                  (Some e, w3) \<Rightarrow> ((False, Some (Wrap ''sysdiagnose collection'' e)), w3)
                | (None, w3) \<Rightarrow> ((True, None), w3)))
      | (None, w1) \<Rightarrow> ((False, None), w1))"

text \<open>
  The \<^verbatim>\<open>for\<close> loop of \<^verbatim>\<open>runNetworkHealthMonitor\<close>. Each \<^verbatim>\<open>select\<close> asks the oracle
  whether the context is done; otherwise the timer fires. The loop need not end, so
  its result is an option: \<open>None\<close> is a run that never returns.
\<close>

partial_function (option) monitorLoop ::
  "env \<Rightarrow> sysdiagnoseArgs \<Rightarrow> world \<Rightarrow> (error option \<times> world) option" where
  "monitorLoop env sysdiagnoseCollectionArgs w =
     (if ctxDone env (tick w) then Some (Some Canceled, step w)
      else
        (case checkNetworkAndCollect env sysdiagnoseCollectionArgs (step w) of
           ((sysdiagnoseCollected, Some err), w1) \<Rightarrow> monitorLoop env sysdiagnoseCollectionArgs w1
         | ((sysdiagnoseCollected, None), w1) \<Rightarrow>
             if sysdiagnoseCollected then Some (None, w1)
             else monitorLoop env sysdiagnoseCollectionArgs w1))"

declare monitorLoop.simps [code]

definition runNetworkHealthMonitor ::
  "env \<Rightarrow> networkHealthMonitorArgs \<Rightarrow> world \<Rightarrow> (error option \<times> world) option" where
  "runNetworkHealthMonitor env args w =
     (if ctxDone env (tick w) then Some (Some Canceled, step w)
      else
        monitorLoop env
          \<lparr>sysdiagnoseArgs.outputDir = outputDir args, timeout = sysdiagnoseTimeout args\<rparr>
          (step w))"

definition getCollectionPrefix :: "env \<Rightarrow> error + string" where
  "getCollectionPrefix env = GetHostIOPlatformUUID (ioreg env)"

text \<open>The hook \<^verbatim>\<open>PreRunE\<close> of the command \<^verbatim>\<open>network-health-monitor\<close>.\<close>

definition PreRunE :: "env \<Rightarrow> networkHealthMonitorArgs \<Rightarrow> error option" where
  "PreRunE env args =
     (if euid env \<noteq> 0 then Some (New ''root privileges required - run with sudo'')
      else if sint (interval args) < 0 then Some (New ''interval cannot be negative'')
      else if sint (startupDelay args) < 0 then Some (New ''startup delay cannot be negative'')
      else if sint (sysdiagnoseTimeout args) < sint sysdiagnoseMinTimeout
      then Some (New ''timeout must be at least 5m0s to ensure creation can complete'')
      else None)"

section \<open>Shell patterns (filepath.Match and filepath.Glob)\<close>

text \<open>
  \<^verbatim>\<open>scanChunk\<close> splits the pattern at the next \<^verbatim>\<open>*\<close> outside a character class;
  \<open>scanEnd\<close> is the index its loop stops at.
\<close>

definition backslash :: char where
  "backslash = CHR 0x5C"

fun scanEnd :: "bool \<Rightarrow> string \<Rightarrow> nat" where
  "scanEnd inrange [] = 0"
| "scanEnd inrange [c] = (if c = CHR ''*'' \<and> \<not> inrange then 0 else 1)"
| "scanEnd inrange (c # d # pattern) =
     (if c = backslash then 2 + scanEnd inrange pattern
      else if c = CHR ''['' then 1 + scanEnd True (d # pattern)
      else if c = CHR '']'' then 1 + scanEnd False (d # pattern)
      else if c = CHR ''*'' \<and> \<not> inrange then 0
      else 1 + scanEnd inrange (d # pattern))"

definition scanChunk :: "string \<Rightarrow> bool \<times> string \<times> string" where
  "scanChunk pattern =
     (let p = dropWhile (\<lambda>c. c = CHR ''*'') pattern;
          star = (pattern \<noteq> [] \<and> hd pattern = CHR ''*'');
          i = scanEnd False p
      in (star, take i p, drop i p))"

definition getEsc :: "string \<Rightarrow> error + rune \<times> string" where
  "getEsc chunk =
     (if chunk = [] \<or> hd chunk = CHR ''-'' \<or> hd chunk = CHR '']'' then Inl ErrBadPattern
      else
        let chunk1 = (if hd chunk = backslash then tl chunk else chunk) in
        if chunk1 = [] then Inl ErrBadPattern
        else
          let r = fst (DecodeRuneInString chunk1);
              n = snd (DecodeRuneInString chunk1);
              nchunk = drop n chunk1
          in if r = RuneError \<and> n = 1 then Inl ErrBadPattern
             else if nchunk = [] then Inl ErrBadPattern
             else Inr (r, nchunk))"

lemma getEsc_length: "getEsc chunk = Inr (r, nchunk) \<Longrightarrow> length nchunk < length chunk"
proof -
  assume a: "getEsc chunk = Inr (r, nchunk)"
  then obtain c s where cs: "chunk = c # s" by (cases chunk) (auto simp: getEsc_def)
  let ?chunk1 = "if c = backslash then s else c # s"
  from a cs have ne: "?chunk1 \<noteq> []" and n: "nchunk = drop (snd (DecodeRuneInString ?chunk1)) ?chunk1"
    by (auto simp: getEsc_def Let_def split: if_splits)
  from ne obtain c' s' where c1: "?chunk1 = c' # s'" by (cases ?chunk1) auto
  have "1 \<le> snd (DecodeRuneInString (c' # s'))"
    using DecodeRuneInString_width [of c' s'] by simp
  then have "length nchunk < length ?chunk1"
    using n c1 by simp
  then show ?thesis using cs by (auto split: if_splits)
qed

function classLoop :: "rune \<Rightarrow> bool \<Rightarrow> nat \<Rightarrow> string \<Rightarrow> error + bool \<times> string" where
  "classLoop r match nrange chunk =
     (if chunk \<noteq> [] \<and> hd chunk = CHR '']'' \<and> 0 < nrange then Inr (match, tl chunk)
      else
        (case getEsc chunk of
           Inl err \<Rightarrow> Inl err
         | Inr (lo, chunk1) \<Rightarrow>
             if hd chunk1 = CHR ''-'' then
               (case getEsc (tl chunk1) of
                  Inl err \<Rightarrow> Inl err
                | Inr (hi, chunk2) \<Rightarrow>
                    classLoop r (match \<or> (lo \<le> r \<and> r \<le> hi)) (Suc nrange) chunk2)
             else classLoop r (match \<or> (lo \<le> r \<and> r \<le> lo)) (Suc nrange) chunk1))"
  by pat_completeness auto
termination
proof (relation "measure (\<lambda>(r, match, nrange, chunk). length chunk)", goal_cases)
  case 1
  show ?case by simp
next
  case (2 r match nrange chunk x2 lo chunk1 x2a hi chunk2)
  then have "length chunk1 < length chunk" and "length chunk2 < length (tl chunk1)"
    using getEsc_length [of chunk lo chunk1] getEsc_length [of "tl chunk1" hi chunk2] by auto
  then show ?case by simp
next
  case (3 r match nrange chunk x2 lo chunk1)
  then show ?case using getEsc_length [of chunk lo chunk1] by auto
qed

declare classLoop.simps [simp del]

lemma classLoop_length:
  "classLoop r match nrange chunk = Inr (m, chunk') \<Longrightarrow> length chunk' \<le> length chunk"
proof (induction r match nrange chunk rule: classLoop.induct)
  case (1 r match nrange chunk)
  show ?case
  proof (cases "chunk \<noteq> [] \<and> hd chunk = CHR '']'' \<and> 0 < nrange")
    case True
    then show ?thesis using "1.prems" by (auto simp: classLoop.simps [of r match nrange chunk])
  next
    case False
    then obtain lo chunk1 where g1: "getEsc chunk = Inr (lo, chunk1)"
      using "1.prems" by (auto simp: classLoop.simps [of r match nrange chunk] split: sum.splits)
    have l1: "length chunk1 < length chunk" using g1 by (rule getEsc_length)
    show ?thesis
    proof (cases "hd chunk1 = CHR ''-''")
      case True
      then obtain hi chunk2 where g2: "getEsc (tl chunk1) = Inr (hi, chunk2)"
        using "1.prems" False g1 by (auto simp: classLoop.simps [of r match nrange chunk] split: sum.splits)
      have l2: "length chunk2 < length (tl chunk1)" using g2 by (rule getEsc_length)
      have "classLoop r (match \<or> (lo \<le> r \<and> r \<le> hi)) (Suc nrange) chunk2 = Inr (m, chunk')"
        using "1.prems" False g1 g2 True by (simp add: classLoop.simps [of r match nrange chunk])
      then have "length chunk' \<le> length chunk2"
        using "1.IH"(1) [OF False g1 refl True g2 refl] by simp
      then show ?thesis using l1 l2 by simp
    next
      case F2: False
      have "classLoop r (match \<or> (lo \<le> r \<and> r \<le> lo)) (Suc nrange) chunk1 = Inr (m, chunk')"
        using "1.prems" False g1 F2 by (simp add: classLoop.simps [of r match nrange chunk])
      then have "length chunk' \<le> length chunk1"
        using "1.IH"(2) [OF False g1 refl F2] by simp
      then show ?thesis using l1 by simp
    qed
  qed
qed

text \<open>
  \<^verbatim>\<open>matchChunk\<close>: does the chunk match a prefix of \<open>s\<close>? After a mismatch
  (\<open>failed\<close>) the rest of the chunk is still read, to report a malformed pattern.
\<close>

function matchChunk :: "bool \<Rightarrow> string \<Rightarrow> string \<Rightarrow> error + string \<times> bool" where
  "matchChunk failed [] s = Inr (if failed then ([], False) else (s, True))"
| "matchChunk failed0 (c # chunk) s =
     (let failed = (failed0 \<or> s = []) in
      if c = CHR ''['' then
        (let r = (if failed then 0 else fst (DecodeRuneInString s));
             s1 = (if failed then s else drop (snd (DecodeRuneInString s)) s);
             negated = (chunk \<noteq> [] \<and> hd chunk = CHR ''^'');
             chunk1 = (if negated then tl chunk else chunk)
         in case classLoop r False 0 chunk1 of
              Inl err \<Rightarrow> Inl err
            | Inr (match, chunk2) \<Rightarrow> matchChunk (failed \<or> match = negated) chunk2 s1)
      else if c = CHR ''?'' then
        (if failed then matchChunk failed chunk s
         else matchChunk (hd s = Separator) chunk (drop (snd (DecodeRuneInString s)) s))
      else if c = backslash then
        (case chunk of
           [] \<Rightarrow> Inl ErrBadPattern
         | d # chunk' \<Rightarrow>
             if failed then matchChunk failed chunk' s
             else matchChunk (d \<noteq> hd s) chunk' (tl s))
      else
        (if failed then matchChunk failed chunk s
         else matchChunk (c \<noteq> hd s) chunk (tl s)))"
  by pat_completeness auto
termination
proof (relation "measure (\<lambda>(failed, chunk, s). length chunk)", goal_cases)
  case 1
  show ?case by simp
next
  case (2 failed0 c chunk s failed r s1 negated chunk1 x2 match chunk2)
  then have "length chunk2 \<le> length chunk1"
    using classLoop_length [of r False 0 chunk1 match chunk2] by simp
  moreover have "length chunk1 \<le> length chunk" using 2 by auto
  ultimately show ?case by simp
qed auto

lemma scanEnd_pos: "p \<noteq> [] \<Longrightarrow> hd p \<noteq> CHR ''*'' \<Longrightarrow> 0 < scanEnd inrange p"
  by (cases "(inrange, p)" rule: scanEnd.cases) auto

lemma scanChunk_rest: "pattern \<noteq> [] \<Longrightarrow> length (snd (snd (scanChunk pattern))) < length pattern"
proof -
  assume ne: "pattern \<noteq> []"
  let ?p = "dropWhile (\<lambda>c. c = CHR ''*'') pattern"
  have le: "length ?p \<le> length pattern" by (rule length_dropWhile_le)
  show ?thesis
  proof (cases "?p = []")
    case True
    then have "drop (scanEnd False ?p) ?p = []" by (simp only: drop_Nil)
    then have "snd (snd (scanChunk pattern)) = []" by (simp only: scanChunk_def Let_def snd_conv)
    then show ?thesis using ne by simp
  next
    case False
    then have "hd ?p \<noteq> CHR ''*''" by (metis (mono_tags, lifting) hd_dropWhile)
    then have "0 < scanEnd False ?p" using False by (intro scanEnd_pos)
    then have "length (drop (scanEnd False ?p) ?p) < length ?p" using False by simp
    then show ?thesis using le by (simp add: scanChunk_def Let_def)
  qed
qed

text \<open>
  The search of \<^verbatim>\<open>Match\<close> after a \<^verbatim>\<open>*\<close>: the chunk is tried after each byte of the
  name up to the next separator; \<open>final\<close> says that the pattern ends with this chunk,
  which then has to match up to the end of the name.
\<close>

fun starLoop :: "string \<Rightarrow> bool \<Rightarrow> string \<Rightarrow> error + string option" where
  "starLoop chunk final [] = Inr None"
| "starLoop chunk final (c # name) =
     (if c = Separator then Inr None
      else
        (case matchChunk False chunk name of
           Inl err \<Rightarrow> Inl err
         | Inr (t, ok) \<Rightarrow>
             if ok \<and> \<not> (final \<and> t \<noteq> []) then Inr (Some t) else starLoop chunk final name))"

text \<open>Before \<^verbatim>\<open>Match\<close> answers false, it checks the syntax of the rest of the pattern.\<close>

function checkRest :: "string \<Rightarrow> error + bool" where
  "checkRest pattern =
     (if pattern = [] then Inr False
      else
        (case matchChunk False (fst (snd (scanChunk pattern))) [] of
           Inl err \<Rightarrow> Inl err
         | Inr res \<Rightarrow> checkRest (snd (snd (scanChunk pattern)))))"
  by pat_completeness auto
termination
  by (relation "measure length") (auto simp: scanChunk_rest)

declare checkRest.simps [simp del]

function Match :: "string \<Rightarrow> string \<Rightarrow> error + bool" where
  "Match pattern name =
     (if pattern = [] then Inr (name = [])
      else
        let star = fst (scanChunk pattern);
            chunk = fst (snd (scanChunk pattern));
            rest = snd (snd (scanChunk pattern))
        in if star \<and> chunk = [] then Inr (Separator \<notin> set name)
           else
             (case matchChunk False chunk name of
                Inl err \<Rightarrow> Inl err
              | Inr (t, ok) \<Rightarrow>
                  if ok \<and> (t = [] \<or> rest \<noteq> []) then Match rest t
                  else if star then
                    (case starLoop chunk (rest = []) name of
                       Inl err \<Rightarrow> Inl err
                     | Inr (Some t') \<Rightarrow> Match rest t'
                     | Inr None \<Rightarrow> checkRest rest)
                  else checkRest rest))"
  by pat_completeness auto
termination
  by (relation "measure (\<lambda>(pattern, name). length pattern)") (auto simp: scanChunk_rest)

declare Match.simps [simp del]

text \<open>
  \<^verbatim>\<open>filepath.Glob\<close>. \<open>Readdirnames\<close> lists a directory from the table of names; the
  library sorts the names, the model keeps the order of the table (the program only
  asks whether the result is empty). When a pattern is malformed the library returns
  the matches found so far with the error; the model returns the error.
\<close>

definition hasMeta :: "string \<Rightarrow> bool" where
  "hasMeta path = list_ex (\<lambda>c. c \<in> set ''*?['' \<or> c = backslash) path"

definition Split :: "string \<Rightarrow> string \<times> string" where
  "Split path =
     (rev (dropWhile (\<lambda>c. c \<noteq> Separator) (rev path)),
      rev (takeWhile (\<lambda>c. c \<noteq> Separator) (rev path)))"

definition cleanGlobPath :: "string \<Rightarrow> string" where
  "cleanGlobPath path =
     (if path = [] then ''.'' else if path = [Separator] then path else butlast path)"

definition childName :: "string \<Rightarrow> string \<Rightarrow> string option" where
  "childName dir p =
     (let n = (if dir = ''.'' then (if p \<noteq> [] \<and> hd p = Separator then [] else p)
               else if dir = [Separator] then (if under dir p then tl p else [])
               else if under dir p then drop (Suc (length dir)) p else [])
      in if n = [] \<or> Separator \<in> set n then None else Some n)"

definition Readdirnames :: "world \<Rightarrow> string \<Rightarrow> string list" where
  "Readdirnames w dir = List.map_filter (childName dir) (map fst (names w))"

fun matchNames :: "string \<Rightarrow> string \<Rightarrow> string list \<Rightarrow> string list \<Rightarrow> error + string list" where
  "matchNames dir pattern [] m = Inr m"
| "matchNames dir pattern (n # ns) m =
     (case Match pattern n of
        Inl err \<Rightarrow> Inl err
      | Inr matched \<Rightarrow> matchNames dir pattern ns (if matched then m @ [Join [dir, n]] else m))"

definition glob :: "world \<Rightarrow> string \<Rightarrow> string \<Rightarrow> string list \<Rightarrow> error + string list" where
  "glob w dir pattern matches =
     (if \<not> isDir w (Clean dir) then Inr matches
      else matchNames dir pattern (Readdirnames w (Clean dir)) matches)"

fun globDirs :: "world \<Rightarrow> string \<Rightarrow> string list \<Rightarrow> string list \<Rightarrow> error + string list" where
  "globDirs w file [] matches = Inr matches"
| "globDirs w file (d # ds) matches =
     (case glob w d file matches of
        Inl err \<Rightarrow> Inl err
      | Inr matches' \<Rightarrow> globDirs w file ds matches')"

definition pathSeparatorsLimit :: nat where
  "pathSeparatorsLimit = 10000"

function globWithLimit :: "world \<Rightarrow> string \<Rightarrow> nat \<Rightarrow> error + string list" where
  "globWithLimit w pattern depth =
     (if pathSeparatorsLimit \<le> depth then Inl ErrBadPattern
      else
        (case Match pattern [] of
           Inl err \<Rightarrow> Inl err
         | Inr res \<Rightarrow>
             if \<not> hasMeta pattern then
               (if pattern \<noteq> [] \<and> (lookup w (Clean pattern) \<noteq> None \<or> isDir w (Clean pattern))
                then Inr [pattern] else Inr [])
             else
               let dir = cleanGlobPath (fst (Split pattern)); file = snd (Split pattern)
               in if \<not> hasMeta dir then glob w dir file []
                  else if dir = pattern then Inl ErrBadPattern
                  else
                    (case globWithLimit w dir (Suc depth) of
                       Inl err \<Rightarrow> Inl err
                     | Inr m \<Rightarrow> globDirs w file m [])))"
  by pat_completeness auto
termination
  by (relation "measure (\<lambda>(w, pattern, depth). pathSeparatorsLimit - depth)") auto

declare globWithLimit.simps [simp del]

definition Glob :: "world \<Rightarrow> string \<Rightarrow> error + string list" where
  "Glob w pattern = globWithLimit w pattern 0"

text \<open>
  The command \<^verbatim>\<open>network-health-monitor\<close>: its \<^verbatim>\<open>RunE\<close>, and the command as the
  framework runs it, \<^verbatim>\<open>PreRunE\<close> first and \<^verbatim>\<open>RunE\<close> only when that returned no error.
\<close>

definition RunE :: "env \<Rightarrow> networkHealthMonitorArgs \<Rightarrow> world \<Rightarrow> (error option \<times> world) option" where
  "RunE env args w =
     (let prefix = (case getCollectionPrefix env of Inl err \<Rightarrow> ''unknown'' | Inr p \<Rightarrow> p) in
      case MkdirAll env (outputDir args) w of
        (Some err, w1) \<Rightarrow> Some (Some (Wrap ''base output directory creation'' err), w1)
      | (None, w1) \<Rightarrow>
          (let prefixDir = Join [outputDir args, prefix] in
           case Glob w1 (Join [prefixDir, ''sysdiagnose_*.tar.gz'']) of
             Inl err \<Rightarrow> Some (Some (Wrap ''invalid glob pattern'' err), w1)
           | Inr existing \<Rightarrow>
               if 0 < length existing then Some (None, w1)
               else runNetworkHealthMonitor env (args\<lparr>outputDir := prefixDir\<rparr>) w1))"

definition newNetworkHealthMonitorCommand ::
  "env \<Rightarrow> networkHealthMonitorArgs \<Rightarrow> world \<Rightarrow> (error option \<times> world) option" where
  "newNetworkHealthMonitorCommand env args w =
     (case PreRunE env args of
        Some err \<Rightarrow> Some (Some err, w)
      | None \<Rightarrow> RunE env args w)"

section \<open>Properties of the platform UUID parser\<close>

subsection \<open>Decoding is local\<close>

lemma acceptLo_ge: "0x80 \<le> acceptLo b"
  by (simp add: acceptLo_def)



lemma Decode_prefix:
  assumes "DecodeRuneInString ((c # p) @ q) = (r, w)" and "w \<le> length (c # p)"
  shows "DecodeRuneInString (c # p) = (r, w)"
proof -
  consider "p = []" | x where "p = [x]" | x y where "p = [x, y]" | x y z t where "p = x # y # z # t"
    by (metis list.exhaust)
  then show ?thesis
  proof cases
    case 1
    then show ?thesis using assms by (auto simp: Let_def runeSize_def split: if_splits)
  next
    case 2
    then show ?thesis using assms by (auto simp: Let_def runeSize_def split: if_splits)
  next
    case 3
    then show ?thesis using assms by (auto simp: Let_def runeSize_def split: if_splits)
  next
    case 4
    then have "DecodeRuneInString ((c # p) @ q) = DecodeRuneInString (c # p)"
      by (simp add: Let_def runeSize_def)
    then show ?thesis using assms by simp
  qed
qed

lemma runes_Cons:
  "runes (c # s) =
     (fst (DecodeRuneInString (c # s)), take (snd (DecodeRuneInString (c # s))) (c # s))
       # runes (drop (snd (DecodeRuneInString (c # s))) (c # s))"
  by (simp add: Let_def)

declare DecodeRuneInString.simps(2) [simp del] runes.simps(2) [simp del]




lemma runes_bytes_nonempty: "x \<in> set (runes s) \<Longrightarrow> snd x \<noteq> []"
proof (induction s arbitrary: x rule: runes.induct)
  case 1
  then show ?case by simp
next
  case (2 c s)
  have w: "1 \<le> snd (DecodeRuneInString (c # s))"
    using DecodeRuneInString_width [of c s] by simp
  from "2.prems" consider "snd x = take (snd (DecodeRuneInString (c # s))) (c # s)"
    | "x \<in> set (runes (drop (snd (DecodeRuneInString (c # s))) (c # s)))"
    unfolding runes_Cons by auto
  then show ?case
  proof cases
    case 1
    then show ?thesis using w by (cases "snd (DecodeRuneInString (c # s))") auto
  next
    case 2
    then show ?thesis by (rule "2.IH" [OF refl])
  qed
qed

lemma concat_runes: "concat (map snd (runes s)) = s"
proof (induction s rule: runes.induct)
  case 1
  then show ?case by simp
next
  case (2 c s)
  show ?case
    unfolding runes_Cons using "2.IH" [OF refl] by simp
qed


lemma runes_truncate:
  "runes (x @ y) = A @ B \<Longrightarrow> concat (map snd A) = x \<Longrightarrow> runes x = A"
proof (induction A arbitrary: x)
  case Nil
  then show ?case by simp
next
  case (Cons a A)
  obtain r bs where a: "a = (r, bs)" by (cases a)
  have "a \<in> set (runes (x @ y))" using Cons.prems(1) by simp
  then have bs: "bs \<noteq> []" using runes_bytes_nonempty a by fastforce
  from Cons.prems(2) a have x: "x = bs @ concat (map snd A)" by simp
  with bs have "x \<noteq> []" by simp
  then obtain c p where cp: "x = c # p" by (cases x) auto
  let ?d = "DecodeRuneInString ((c # p) @ y)"
  have rc: "runes ((c # p) @ y) = (fst ?d, take (snd ?d) ((c # p) @ y)) # runes (drop (snd ?d) ((c # p) @ y))"
    using runes_Cons [of c "p @ y"] by simp
  with Cons.prems(1) cp a have r: "fst ?d = r" and t: "take (snd ?d) ((c # p) @ y) = bs"
    and rest: "runes (drop (snd ?d) ((c # p) @ y)) = A @ B"
    by simp_all
  have wy: "snd ?d \<le> length ((c # p) @ y)"
    using DecodeRuneInString_width [of c "p @ y"] by simp
  have len: "snd ?d = length bs"
    using t wy by (metis length_take min.absorb2)
  have "length x = length bs + length (concat (map snd A))"
    using x by (metis length_append)
  then have wx: "snd ?d \<le> length (c # p)"
    using len cp by (metis le_add1)
  have dx: "DecodeRuneInString (c # p) = (r, length bs)"
    using Decode_prefix [of c p y r "length bs"] r len wx by (metis prod.collapse)
  have "drop (length bs) ((c # p) @ y) = concat (map snd A) @ y"
    using x cp by (metis append.assoc append_eq_conv_conj)
  with rest len have "runes (concat (map snd A) @ y) = A @ B" by simp
  then have ih: "runes (concat (map snd A)) = A"
    by (rule Cons.IH) simp
  have "runes (c # p) = (r, take (length bs) (c # p)) # runes (drop (length bs) (c # p))"
    using runes_Cons [of c p] dx by simp
  moreover have "take (length bs) (c # p) = bs" using x cp by (metis append_eq_conv_conj)
  moreover have "drop (length bs) (c # p) = concat (map snd A)" using x cp by (metis append_eq_conv_conj)
  ultimately show ?case using ih cp a by simp
qed






lemma replaceFrom_quote: "replaceFrom s [q] [] = filter (\<lambda>c. c \<noteq> q) s"
  by (induction s) auto

lemma ReplaceAll_quote: "ReplaceAll s [q] [] = filter (\<lambda>c. c \<noteq> q) s"
  by (simp add: ReplaceAll_def replaceFrom_quote)

lemma Contains_Nil: "Contains s []"
  by (cases s) simp_all

lemma Contains_append: "Contains a t \<Longrightarrow> Contains (a @ b) t"
proof (induction a)
  case Nil
  then show ?case by (simp add: Contains_Nil)
next
  case (Cons x a)
  then show ?case using prefix_prefix [of t "x # a" b] by auto
qed

subsection \<open>Fields\<close>

lemma Decode_ascii:
  assumes "x \<in> set (take (snd (DecodeRuneInString (c # s))) (c # s))" and "byte x < 0x80"
  shows "DecodeRuneInString (c # s) = (byte x, 1) \<and> x = c"
proof -
  consider "s = []" | a where "s = [a]" | a b where "s = [a, b]" | a b d t where "s = a # b # d # t"
    by (metis list.exhaust)
  then show ?thesis
  proof cases
    case 1
    then show ?thesis using assms
      by (auto simp: DecodeRuneInString.simps Let_def runeSize_def split: if_splits)
  next
    case 2
    then show ?thesis using assms acceptLo_ge [of "byte c"]
      by (auto simp: DecodeRuneInString.simps Let_def runeSize_def split: if_splits)
  next
    case 3
    then show ?thesis using assms acceptLo_ge [of "byte c"]
      by (auto simp: DecodeRuneInString.simps Let_def runeSize_def split: if_splits)
  next
    case 4
    then show ?thesis using assms acceptLo_ge [of "byte c"]
      by (auto simp: DecodeRuneInString.simps Let_def runeSize_def split: if_splits)
  qed
qed

lemma runes_ascii:
  "x \<in> set s \<Longrightarrow> byte x < 0x80 \<Longrightarrow> (byte x, [x]) \<in> set (runes s)"
proof (induction s rule: runes.induct)
  case 1
  then show ?case by simp
next
  case (2 c s)
  let ?w = "snd (DecodeRuneInString (c # s))"
  have "c # s = take ?w (c # s) @ drop ?w (c # s)" by simp
  then have "x \<in> set (take ?w (c # s)) \<or> x \<in> set (drop ?w (c # s))"
    using "2.prems"(1) by (metis Un_iff set_append)
  then show ?case
  proof
    assume a: "x \<in> set (take ?w (c # s))"
    have "DecodeRuneInString (c # s) = (byte x, 1) \<and> x = c"
      using a "2.prems"(2) by (rule Decode_ascii)
    then show ?thesis unfolding runes_Cons by simp
  next
    assume "x \<in> set (drop ?w (c # s))"
    then have "(byte x, [x]) \<in> set (runes (drop ?w (c # s)))"
      using "2.IH" [OF refl] "2.prems"(2) by blast
    then show ?thesis unfolding runes_Cons by simp
  qed
qed

lemma fieldsLoop_bytes:
  "fld \<in> set (fieldsLoop f start rs) \<Longrightarrow>
     set fld \<subseteq> (case start of None \<Rightarrow> {} | Some c \<Rightarrow> set c) \<union> set (concat (map snd rs))"
proof (induction rs arbitrary: start)
  case Nil
  then show ?case by (cases start) auto
next
  case (Cons a rs)
  obtain r bs where a: "a = (r, bs)" by (cases a)
  show ?case
  proof (cases "f r")
    case True
    then show ?thesis using Cons.prems a Cons.IH [of None] by (cases start) auto
  next
    case False
    show ?thesis
    proof (cases start)
      case None
      then show ?thesis using Cons.prems a False Cons.IH [of "Some bs"] by auto
    next
      case (Some c)
      then show ?thesis using Cons.prems a False Cons.IH [of "Some (c @ bs)"] by auto
    qed
  qed
qed

lemma fieldsLoop_nonempty:
  "fld \<in> set (fieldsLoop f start rs) \<Longrightarrow> (\<And>x. x \<in> set rs \<Longrightarrow> snd x \<noteq> []) \<Longrightarrow>
     start \<noteq> Some [] \<Longrightarrow> fld \<noteq> []"
proof (induction rs arbitrary: start)
  case Nil
  then show ?case by (cases start) auto
next
  case (Cons a rs)
  obtain r bs where a: "a = (r, bs)" by (cases a)
  have bs: "bs \<noteq> []" using Cons.prems(2) [of a] a by simp
  have rs: "\<And>x. x \<in> set rs \<Longrightarrow> snd x \<noteq> []" using Cons.prems(2) by simp
  show ?case
  proof (cases "f r")
    case True
    then show ?thesis using Cons.prems(1,3) a Cons.IH [of None, OF _ rs] by (cases start) auto
  next
    case False
    show ?thesis
    proof (cases start)
      case None
      then show ?thesis using Cons.prems(1) a False bs Cons.IH [of "Some bs", OF _ rs] by auto
    next
      case (Some c)
      then show ?thesis using Cons.prems(1) a False bs Cons.IH [of "Some (c @ bs)", OF _ rs] by auto
    qed
  qed
qed

text \<open>The running field decodes to the code points it was built from, none of them a space.\<close>

definition fieldInv :: "(rune \<Rightarrow> bool) \<Rightarrow> string option \<Rightarrow> string \<Rightarrow> bool" where
  "fieldInv f start t =
     (case start of
        None \<Rightarrow> True
      | Some cur \<Rightarrow> runes (cur @ t) = runes cur @ runes t \<and> (\<forall>x \<in> set (runes cur). \<not> f (fst x)))"

lemma fieldsLoop_runes:
  "fld \<in> set (fieldsLoop f start (runes t)) \<Longrightarrow> fieldInv f start t \<Longrightarrow>
     \<forall>x \<in> set (runes fld). \<not> f (fst x)"
proof (induction t arbitrary: start rule: runes.induct)
  case 1
  then show ?case by (cases start) (auto simp: fieldInv_def)
next
  case (2 c s)
  let ?d = "DecodeRuneInString (c # s)"
  let ?bs = "take (snd ?d) (c # s)"
  let ?t' = "drop (snd ?d) (c # s)"
  have rc: "runes (c # s) = (fst ?d, ?bs) # runes ?t'" by (rule runes_Cons)
  have split: "?bs @ ?t' = c # s" by simp
  show ?case
  proof (cases "f (fst ?d)")
    case True
    show ?thesis
    proof (cases start)
      case None
      then have "fld \<in> set (fieldsLoop f None (runes ?t'))"
        using "2.prems"(1) True rc by simp
      then show ?thesis using "2.IH" [OF refl, of None] by (simp add: fieldInv_def)
    next
      case (Some cur)
      then have "fld = cur \<or> fld \<in> set (fieldsLoop f None (runes ?t'))"
        using "2.prems"(1) True rc by auto
      then show ?thesis
      proof
        assume "fld = cur"
        then show ?thesis using "2.prems"(2) Some by (simp add: fieldInv_def)
      next
        assume "fld \<in> set (fieldsLoop f None (runes ?t'))"
        then show ?thesis using "2.IH" [OF refl, of None] by (simp add: fieldInv_def)
      qed
    qed
  next
    case False
    show ?thesis
    proof (cases start)
      case None
      then have in': "fld \<in> set (fieldsLoop f (Some ?bs) (runes ?t'))"
        using "2.prems"(1) False rc by simp
      have "runes (?bs @ ?t') = [(fst ?d, ?bs)] @ runes ?t'"
        using rc split by simp
      then have rb: "runes ?bs = [(fst ?d, ?bs)]"
        by (rule runes_truncate) simp
      have "fieldInv f (Some ?bs) ?t'"
        unfolding fieldInv_def using rb rc split False by simp
      then show ?thesis using "2.IH" [OF refl, of "Some ?bs"] in' by blast
    next
      case (Some cur)
      then have in': "fld \<in> set (fieldsLoop f (Some (cur @ ?bs)) (runes ?t'))"
        using "2.prems"(1) False rc by simp
      from "2.prems"(2) Some have inv: "runes (cur @ c # s) = runes cur @ runes (c # s)"
        and ns: "\<forall>x \<in> set (runes cur). \<not> f (fst x)"
        by (simp_all add: fieldInv_def)
      have "(cur @ ?bs) @ ?t' = cur @ c # s" using split by simp
      then have all: "runes ((cur @ ?bs) @ ?t') = (runes cur @ [(fst ?d, ?bs)]) @ runes ?t'"
        using inv rc by simp
      then have rb: "runes (cur @ ?bs) = runes cur @ [(fst ?d, ?bs)]"
        by (rule runes_truncate) (simp add: concat_runes)
      have "fieldInv f (Some (cur @ ?bs)) ?t'"
        unfolding fieldInv_def using rb all ns False by simp
      then show ?thesis using "2.IH" [OF refl, of "Some (cur @ ?bs)"] in' by blast
    qed
  qed
qed

lemma fieldsLoop_all_nonspace:
  "\<forall>x \<in> set rs. \<not> f (fst x) \<Longrightarrow> fieldsLoop f (Some c) rs = [c @ concat (map snd rs)]"
  by (induction rs arbitrary: c) auto

lemma Fields_field:
  assumes "fld \<in> set (Fields s)"
  shows "fld \<noteq> []" and "set fld \<subseteq> set s" and "\<forall>x \<in> set (runes fld). \<not> IsSpace (fst x)"
    and "Fields fld = [fld]"
proof -
  from assms have in': "fld \<in> set (fieldsLoop IsSpace None (runes s))"
    by (simp add: Fields_def FieldsFunc_def)
  show ne: "fld \<noteq> []"
    using in' by (rule fieldsLoop_nonempty) (simp_all add: runes_bytes_nonempty)
  show "set fld \<subseteq> set s"
    using fieldsLoop_bytes [OF in'] by (simp add: concat_runes)
  show ns: "\<forall>x \<in> set (runes fld). \<not> IsSpace (fst x)"
    using in' by (rule fieldsLoop_runes) (simp add: fieldInv_def)
  from ne obtain c p where cp: "fld = c # p" by (cases fld) auto
  let ?d = "DecodeRuneInString (c # p)"
  have rc: "runes (c # p) = (fst ?d, take (snd ?d) (c # p)) # runes (drop (snd ?d) (c # p))"
    by (rule runes_Cons)
  have "fieldsLoop IsSpace None (runes (c # p)) =
      fieldsLoop IsSpace (Some (take (snd ?d) (c # p))) (runes (drop (snd ?d) (c # p)))"
    using ns cp rc by simp
  also have "\<dots> = [take (snd ?d) (c # p) @ concat (map snd (runes (drop (snd ?d) (c # p))))]"
    using ns cp rc by (intro fieldsLoop_all_nonspace) simp
  also have "\<dots> = [c # p]"
    by (simp add: concat_runes)
  finally show "Fields fld = [fld]"
    using cp by (simp add: Fields_def FieldsFunc_def)
qed

subsection \<open>The line matcher and the parser\<close>



lemma matchLine_Some:
  "matchLine line = Some uuid \<Longrightarrow> uuid \<in> set (Fields (ReplaceAll line [quote] []))"
  by (auto simp: matchLine_def Let_def split: if_splits)



lemma parseIOPlatformUUID_Inr:
  "parseIOPlatformUUID data = Inr uuid \<Longrightarrow> \<exists>line. matchLine line = Some uuid"
proof (induction data rule: parseIOPlatformUUID.induct)
  case (1 data)
  let ?line = "takeWhile (\<lambda>c. c \<noteq> newline) data"
  from "1.prems" have ne: "data \<noteq> []" and short: "\<not> MaxScanTokenSize \<le> length ?line"
    by (auto simp: parseIOPlatformUUID.simps [of data] Let_def split: if_splits)
  show ?case
  proof (cases "matchLine (dropCR ?line)")
    case None
    then have "parseIOPlatformUUID (drop (Suc (length ?line)) data) = Inr uuid"
      using "1.prems" ne short by (simp add: parseIOPlatformUUID.simps [of data] Let_def)
    then show ?thesis using "1.IH" [OF ne refl short None] by simp
  next
    case (Some u)
    then have "u = uuid"
      using "1.prems" ne short by (simp add: parseIOPlatformUUID.simps [of data] Let_def)
    then show ?thesis using Some by blast
  qed
qed

subsection \<open>Claims about the parser\<close>




text \<open>
  Claim C10. When \<^verbatim>\<open>GetHostIOPlatformUUID\<close> succeeds, the identifier it returns is not
  empty, none of its code points is white space (so none of its bytes is an ASCII
  space, tab, newline or the like), it contains no double quote, and it is one field of
  its own.
\<close>

theorem GetHostIOPlatformUUID_single_token:
  assumes "GetHostIOPlatformUUID out = Inr uuid"
  shows "uuid \<noteq> [] \<and> (\<forall>x \<in> set (runes uuid). \<not> IsSpace (fst x))
    \<and> (\<forall>c \<in> set uuid. byte c \<notin> {0x09, 0x0A, 0x0B, 0x0C, 0x0D, 0x20})
    \<and> quote \<notin> set uuid \<and> Fields uuid = [uuid]"
proof -
  from assms obtain data where "parseIOPlatformUUID data = Inr uuid"
    by (auto simp: GetHostIOPlatformUUID_def split: option.splits)
  then obtain line where "matchLine line = Some uuid"
    using parseIOPlatformUUID_Inr by blast
  then have f: "uuid \<in> set (Fields (ReplaceAll line [quote] []))"
    by (rule matchLine_Some)
  have ns: "\<forall>x \<in> set (runes uuid). \<not> IsSpace (fst x)"
    using f by (rule Fields_field)
  have "\<forall>c \<in> set uuid. byte c \<notin> {0x09, 0x0A, 0x0B, 0x0C, 0x0D, 0x20}"
  proof
    fix c assume c: "c \<in> set uuid"
    show "byte c \<notin> {0x09, 0x0A, 0x0B, 0x0C, 0x0D, 0x20}"
    proof
      assume b: "byte c \<in> {0x09, 0x0A, 0x0B, 0x0C, 0x0D, 0x20}"
      then have "byte c < 0x80" by auto
      with c have "(byte c, [c]) \<in> set (runes uuid)" by (rule runes_ascii)
      with ns have "\<not> IsSpace (byte c)" by fastforce
      with b show False by (auto simp: IsSpace_def)
    qed
  qed
  moreover have "quote \<notin> set uuid"
    using Fields_field(2) [OF f] by (auto simp: ReplaceAll_quote)
  ultimately show ?thesis
    using ns Fields_field(1) [OF f] Fields_field(4) [OF f] by simp
qed

text \<open>
  A witness: an output whose first line is \<^verbatim>\<open>"IOPlatformUUID" = "AB-12"\<close>, ended by a
  carriage return and a newline.
\<close>

theorem GetHostIOPlatformUUID_single_token_witness:
  "GetHostIOPlatformUUID
     (Some ((platformUUIDKeyToken @ '' = '' @ [quote] @ ''AB-12'' @ [quote])
        @ [CHR 0x0D, newline] @ ''}''))
     = Inr ''AB-12''
   \<and> quote \<notin> set ''AB-12'' \<and> Fields ''AB-12'' = [''AB-12'']"
proof -
  let ?line = "platformUUIDKeyToken @ '' = '' @ [quote] @ ''AB-12'' @ [quote]"
  have m: "matchLine ?line = Some ''AB-12''" by code_simp
  have t: "takeWhile (\<lambda>c. c \<noteq> newline) (?line @ [CHR 0x0D, newline] @ ''}'') = ?line @ [CHR 0x0D]"
    by (simp add: platformUUIDKeyToken_def quote_def newline_def)
  have d: "dropCR (?line @ [CHR 0x0D]) = ?line"
    by (simp add: dropCR_def butlast_append)
  have l: "\<not> MaxScanTokenSize \<le> length (?line @ [CHR 0x0D])"
    by (simp add: platformUUIDKeyToken_def MaxScanTokenSize_def)
  have "parseIOPlatformUUID (?line @ [CHR 0x0D, newline] @ ''}'') = Inr ''AB-12''"
    by (subst parseIOPlatformUUID.simps) (simp only: t d l m Let_def, simp)
  then have a: "GetHostIOPlatformUUID (Some (?line @ [CHR 0x0D, newline] @ ''}'')) = Inr ''AB-12''"
    by (simp add: GetHostIOPlatformUUID_def)
  from GetHostIOPlatformUUID_single_token [OF a] a show ?thesis by blast
qed

section \<open>Properties of the commands\<close>

subsection \<open>Validation of the configuration\<close>

lemma sint_sysdiagnoseMinTimeout: "sint sysdiagnoseMinTimeout = 300000000000"
  by (simp add: sysdiagnoseMinTimeout_def Minute_def)

text \<open>
  Claim C9, as the code has it. \<^verbatim>\<open>PreRunE\<close> accepts exactly when the process runs as
  root, the interval and the startup delay are not negative and the collection timeout
  is at least the minimum of five minutes (the minimum itself is accepted). A rejected
  configuration ends the command with that error, in the state it started in, and
  \<^verbatim>\<open>RunE\<close> does not run.
\<close>

theorem PreRunE_accepts_iff:
  "(PreRunE env args = None \<longleftrightarrow>
      euid env = 0 \<and> 0 \<le> sint (interval args) \<and> 0 \<le> sint (startupDelay args)
      \<and> sint sysdiagnoseMinTimeout \<le> sint (sysdiagnoseTimeout args))
   \<and> newNetworkHealthMonitorCommand env args w =
       (if euid env = 0 \<and> 0 \<le> sint (interval args) \<and> 0 \<le> sint (startupDelay args)
           \<and> sint sysdiagnoseMinTimeout \<le> sint (sysdiagnoseTimeout args)
        then RunE env args w else Some (PreRunE env args, w))"
  by (auto simp: PreRunE_def newNetworkHealthMonitorCommand_def)

text \<open>
  Claim C9 as it is written does not hold: a timeout equal to the minimum does not
  exceed it, and \<^verbatim>\<open>PreRunE\<close> accepts it.
\<close>

theorem PreRunE_minimum_timeout_counterexample:
  "PreRunE
     \<lparr>fails = (\<lambda>s t. False), imds = (\<lambda>t. Status 200), ctxDone = (\<lambda>t. False),
      randomNumber = (\<lambda>t. 0), timestamp = (\<lambda>t. []), archive = (\<lambda>t. []), copied = (\<lambda>t. 0),
      tempDir = ''/tmp'', euid = 0, ioreg = None\<rparr>
     \<lparr>interval = 0, startupDelay = 0, outputDir = ''/out'', sysdiagnoseTimeout = sysdiagnoseMinTimeout\<rparr>
     = None
   \<and> \<not> sint sysdiagnoseMinTimeout < sint sysdiagnoseMinTimeout"
  by (simp add: PreRunE_def)

end
